theory Spec2Isabelle
  imports Complex_Main "HOL-Library.List_Lexorder"
begin

section \<open>Python values\<close>

text \<open>
  A Python \<open>str\<close> is a sequence of Unicode code points; a code point is a natural
  number here, and \<open>str\<close> turns an ASCII literal into such a sequence.
  The euro sign is U+20AC, the pound sign U+00A3.
\<close>

type_synonym pystr = "nat list"

definition str :: "string \<Rightarrow> pystr" where
  "str s = map of_char s"

definition euro :: nat where "euro = 8364"
definition pound :: nat where "pound = 163"
definition dollar :: nat where "dollar = 36"
definition space :: nat where "space = 32"

text \<open>
  A Python \<open>float\<close> is an IEEE double: a finite double is the real number it denotes
  (the sign of zero is not told apart), the two infinities and NaN are values of their
  own. pandas reads NaN as the missing value of a numeric column, so \<open>isna\<close> is the
  test for NaN.
\<close>

datatype pyfloat = Fin real | PosInf | NegInf | NaN

definition isna :: "pyfloat \<Rightarrow> bool" where
  "isna f = (f = NaN)"

text \<open>
  Rounding a real number to the nearest double, ties to the even significand: the
  significand has 53 bits, the least exponent of the last bit is -1074, and a result of
  magnitude \<open>2 ^ 1024\<close> or more is an infinity.
\<close>

definition round_half_even :: "real \<Rightarrow> int" where
  "round_half_even y =
     (let f = \<lfloor>y\<rfloor>; d = y - of_int f in
      if d < 1 / 2 then f else if 1 / 2 < d then f + 1 else if even f then f else f + 1)"

definition round_double :: "real \<Rightarrow> pyfloat" where
  "round_double x =
     (if x = 0 then Fin 0
      else
        (let q = max (\<lfloor>log 2 \<bar>x\<bar>\<rfloor> - 52) (- 1074);
             y = of_int (round_half_even (x / 2 powi q)) * 2 powi q
         in if 2 ^ 1024 \<le> \<bar>y\<bar> then (if 0 < x then PosInf else NegInf) else Fin y))"

text \<open>Division of a float by a positive finite constant (\<open>x / 1000\<close>).\<close>

fun fdiv :: "pyfloat \<Rightarrow> real \<Rightarrow> pyfloat" where
  "fdiv (Fin x) c = round_double (x / c)"
| "fdiv PosInf c = PosInf"
| "fdiv NegInf c = NegInf"
| "fdiv NaN c = NaN"

fun fneg :: "pyfloat \<Rightarrow> pyfloat" where
  "fneg (Fin x) = Fin (- x)"
| "fneg PosInf = NegInf"
| "fneg NegInf = PosInf"
| "fneg NaN = NaN"

text \<open>The values a decoded JSON document is made of.\<close>

datatype pyval =
    PNone
  | PBool bool
  | PInt int
  | PFloat pyfloat
  | PStr pystr
  | PList "pyval list"
  | PDict "(pystr \<times> pyval) list"

datatype error = AttributeError | ValueError | OverflowError | TypeError

text \<open>Truthiness, as \<open>not x\<close> reads it.\<close>

fun truthy :: "pyval \<Rightarrow> bool" where
  "truthy PNone = False"
| "truthy (PBool b) = b"
| "truthy (PInt i) = (i \<noteq> 0)"
| "truthy (PFloat f) = (f \<noteq> Fin 0)"
| "truthy (PStr s) = (s \<noteq> [])"
| "truthy (PList xs) = (xs \<noteq> [])"
| "truthy (PDict kvs) = (kvs \<noteq> [])"

section \<open>String operations\<close>

text \<open>
  \<open>str.lower\<close> on the ASCII letters. Python lowers other cased code points too;
  none of them lowers to one of the ASCII letters of the no-fee markers, so the
  membership test of the fee parser reads the same.
\<close>

definition lower_char :: "nat \<Rightarrow> nat" where
  "lower_char c = (if 65 \<le> c \<and> c \<le> 90 then c + 32 else c)"

definition lower :: "pystr \<Rightarrow> pystr" where
  "lower s = map lower_char s"

text \<open>\<open>s.replace(c, '')\<close> for a one-character \<open>c\<close>.\<close>

definition remove_char :: "nat \<Rightarrow> pystr \<Rightarrow> pystr" where
  "remove_char c s = filter (\<lambda>x. x \<noteq> c) s"

section \<open>The builtin float() on a string\<close>

text \<open>
  \<open>float(s)\<close> first turns every code point from 127 on into ASCII: a Unicode white
  space becomes a space, a Unicode decimal digit its ASCII digit, anything else a
  question mark. It then strips the ASCII white space at both ends and reads an optional
  sign followed by \<open>inf\<close>, \<open>infinity\<close> or \<open>nan\<close> (in any case) or by a decimal number:
  digits with single underscores between them, an optional point, an optional exponent.
  The number is rounded to the nearest double. Anything else raises ValueError, which is
  \<open>None\<close> here.

  The Unicode tables are those of Unicode 14.0 (CPython 3.11): the white space beyond
  ASCII, and the code points of the digit zero of every decimal digit range beyond
  ASCII, each followed by its digits one to nine.
\<close>

definition uni_spaces :: "nat list" where
  "uni_spaces =
     [133, 160, 5760, 8192, 8193, 8194, 8195, 8196, 8197, 8198, 8199, 8200, 8201, 8202,
      8232, 8233, 8239, 8287, 12288]"

definition digit_zeros :: "nat list" where
  "digit_zeros =
     [1632, 1776, 1984, 2406, 2534, 2662, 2790, 2918, 3046, 3174, 3302, 3430, 3558,
      3664, 3792, 3872, 4160, 4240, 6112, 6160, 6470, 6608, 6784, 6800, 6992, 7088,
      7232, 7248, 42528, 43216, 43264, 43472, 43504, 43600, 44016, 65296, 66720, 68912,
      69734, 69872, 69942, 70096, 70384, 70736, 70864, 71248, 71360, 71472, 71904,
      72016, 72784, 73040, 73120, 92768, 92864, 93008, 120782, 120792, 120802, 120812,
      120822, 123200, 123632, 125264, 130032]"

definition decimal_of :: "nat \<Rightarrow> nat option" where
  "decimal_of c = map_option (\<lambda>z. c - z) (find (\<lambda>z. z \<le> c \<and> c \<le> z + 9) digit_zeros)"

definition to_ascii :: "nat \<Rightarrow> nat" where
  "to_ascii c =
     (if c < 127 then c
      else if c \<in> set uni_spaces then 32
      else (case decimal_of c of Some d \<Rightarrow> 48 + d | None \<Rightarrow> 63))"

definition is_space :: "nat \<Rightarrow> bool" where
  "is_space c = (c = 32 \<or> (9 \<le> c \<and> c \<le> 13))"

definition is_digit :: "nat \<Rightarrow> bool" where
  "is_digit c = (48 \<le> c \<and> c \<le> 57)"

definition strip :: "pystr \<Rightarrow> pystr" where
  "strip s = rev (dropWhile is_space (rev (dropWhile is_space s)))"

text \<open>
  The longest digit part at the head of a string that starts with a digit:
  its digits (underscores dropped) and the rest.
\<close>

fun digitpart :: "pystr \<Rightarrow> pystr \<times> pystr" where
  "digitpart (c # d # cs) =
     (if is_digit c then (case digitpart (d # cs) of (ds, r) \<Rightarrow> (c # ds, r))
      else if c = 95 \<and> is_digit d then digitpart (d # cs)
      else ([], c # d # cs))"
| "digitpart [c] = (if is_digit c then ([c], []) else ([], [c]))"
| "digitpart [] = ([], [])"

definition dec_val :: "pystr \<Rightarrow> nat" where
  "dec_val ds = foldl (\<lambda>a c. 10 * a + (c - 48)) 0 ds"

text \<open>An optional sign: whether it is a minus, and the rest.\<close>

fun opt_sign :: "pystr \<Rightarrow> bool \<times> pystr" where
  "opt_sign [] = (False, [])"
| "opt_sign (c # cs) =
     (if c = 45 then (True, cs) else if c = 43 then (False, cs) else (False, c # cs))"

text \<open>The mantissa: integer digits, fraction digits and the rest.\<close>

definition mantissa :: "pystr \<Rightarrow> (pystr \<times> pystr \<times> pystr) option" where
  "mantissa s =
     (case s of
        [] \<Rightarrow> None
      | c # cs \<Rightarrow>
          if is_digit c then
            (case digitpart s of (ip, r) \<Rightarrow>
               (case r of
                  [] \<Rightarrow> Some (ip, [], [])
                | p # r' \<Rightarrow>
                    if p = 46 then
                      (case r' of
                         [] \<Rightarrow> Some (ip, [], [])
                       | f # _ \<Rightarrow>
                           if is_digit f then
                             (case digitpart r' of (fp, r'') \<Rightarrow> Some (ip, fp, r''))
                           else Some (ip, [], r'))
                    else Some (ip, [], r)))
          else if c = 46 then
            (case cs of
               [] \<Rightarrow> None
             | f # _ \<Rightarrow>
                 if is_digit f then
                   (case digitpart cs of (fp, r) \<Rightarrow> Some ([], fp, r))
                 else None)
          else None)"

text \<open>The exponent, which must reach the end of the string.\<close>

definition exponent :: "pystr \<Rightarrow> int option" where
  "exponent r =
     (case r of
        [] \<Rightarrow> Some 0
      | e # r' \<Rightarrow>
          if e = 101 \<or> e = 69 then
            (case opt_sign r' of (neg, r'') \<Rightarrow>
               (case r'' of
                  [] \<Rightarrow> None
                | d # _ \<Rightarrow>
                    if is_digit d then
                      (case digitpart r'' of (ds, rest) \<Rightarrow>
                         if rest = [] then
                           Some (if neg then - int (dec_val ds) else int (dec_val ds))
                         else None)
                    else None))
          else None)"

definition scale :: "real \<Rightarrow> int \<Rightarrow> real" where
  "scale x e = (if 0 \<le> e then x * 10 ^ nat e else x / 10 ^ nat (- e))"

definition abs_float :: "pystr \<Rightarrow> pyfloat option" where
  "abs_float s =
     (if lower s = str ''inf'' \<or> lower s = str ''infinity'' then Some PosInf
      else if lower s = str ''nan'' then Some NaN
      else
        (case mantissa s of
           None \<Rightarrow> None
         | Some (ip, fp, r) \<Rightarrow>
             (case exponent r of
                None \<Rightarrow> None
              | Some e \<Rightarrow>
                  Some (round_double
                    (scale (real (dec_val ip) + real (dec_val fp) / 10 ^ length fp) e)))))"

text \<open>The text \<open>float\<close> reads: ASCII, without the white space at its ends.\<close>

definition float_text :: "pystr \<Rightarrow> pystr" where
  "float_text s = strip (map to_ascii s)"

definition py_float :: "pystr \<Rightarrow> pyfloat option" where
  "py_float s =
     (case opt_sign (float_text s) of (neg, r) \<Rightarrow>
        (case abs_float r of
           None \<Rightarrow> None
         | Some f \<Rightarrow> Some (if neg then fneg f else f)))"

section \<open>The fee parser\<close>

text \<open>
  \<open>_parse_transfer_fee\<close>. The argument is whatever the raw record holds under
  \<open>fee\<close>: a falsy value returns 0.0 at once, \<open>lower\<close> exists on strings only
  (AttributeError otherwise, which the \<open>try\<close> does not cover), and the ValueError
  of \<open>float\<close> is caught.
\<close>

definition no_fee_markers :: "pystr list" where
  "no_fee_markers = [str ''free'', str ''free transfer'', str ''loan'', str ''-'']"

definition fee_clean :: "pystr \<Rightarrow> pystr" where
  "fee_clean s = remove_char space (remove_char dollar (remove_char pound (remove_char euro s)))"

definition or_zero :: "pyfloat option \<Rightarrow> pyfloat" where
  "or_zero r = (case r of None \<Rightarrow> Fin 0 | Some f \<Rightarrow> f)"

text \<open>The text handed to \<open>float\<close>: the cleaned string without its unit letter.\<close>

definition fee_text :: "pystr \<Rightarrow> pystr" where
  "fee_text s =
     (let c = fee_clean s in
      if 77 \<in> set c then remove_char 77 c
      else if 75 \<in> set c then remove_char 75 c
      else c)"

definition parse_fee_str :: "pystr \<Rightarrow> pyfloat" where
  "parse_fee_str s =
     (if s = [] \<or> lower s \<in> set no_fee_markers then Fin 0
      else
        (let c = fee_clean s in
         if 77 \<in> set c then or_zero (py_float (remove_char 77 c))
         else if 75 \<in> set c then or_zero (map_option (\<lambda>f. fdiv f 1000) (py_float (remove_char 75 c)))
         else or_zero (map_option (\<lambda>f. fdiv f 1000000) (py_float c))))"

definition parse_transfer_fee :: "pyval \<Rightarrow> error + pyfloat" where
  "parse_transfer_fee v =
     (if \<not> truthy v then Inr (Fin 0)
      else (case v of PStr s \<Rightarrow> Inr (parse_fee_str s) | _ \<Rightarrow> Inl AttributeError))"

section \<open>The normalizer\<close>

text \<open>
  One row of the table. The record built in the loop of \<open>process_transfer_data\<close> and
  the row of the converted DataFrame have the same fields; they differ in what the
  columns hold: \<open>'v\<close> in the object columns, \<open>'n\<close> in \<open>player_age\<close> and
  \<open>market_value\<close>, \<open>'d\<close> in \<open>transfer_date\<close>. The fee is a float from the start.
\<close>

record ('v, 'n, 'd) flat_transfer =
  player_id :: 'v
  player_name :: 'v
  player_age :: 'n
  player_position :: 'v
  player_nationality :: 'v
  from_club_id :: 'v
  from_club_name :: 'v
  from_club_league :: 'v
  to_club_id :: 'v
  to_club_name :: 'v
  to_club_league :: 'v
  transfer_fee :: pyfloat
  transfer_fee_currency :: 'v
  transfer_date :: 'd
  transfer_type :: 'v
  contract_duration :: 'v
  season :: 'v
  market_value :: 'n

text \<open>A pandas timestamp; \<open>None\<close> in a date column is NaT.\<close>

datatype timestamp = Timestamp (ts_year: int) (ts_month: nat) (ts_day: nat)

type_synonym raw_record = "(pyval, pyval, pyval) flat_transfer"
type_synonym row = "(pyval, pyfloat, timestamp option) flat_transfer"

definition and_then :: "error + 'a \<Rightarrow> ('a \<Rightarrow> error + 'b) \<Rightarrow> error + 'b" where
  "and_then r f = (case r of Inl e \<Rightarrow> Inl e | Inr x \<Rightarrow> f x)"

text \<open>\<open>d.get(k, default)\<close>: only a dict has the method.\<close>

definition dict_get :: "pyval \<Rightarrow> pystr \<Rightarrow> pyval \<Rightarrow> error + pyval" where
  "dict_get d k dflt =
     (case d of
        PDict kvs \<Rightarrow> Inr (case map_of kvs k of None \<Rightarrow> dflt | Some v \<Rightarrow> v)
      | _ \<Rightarrow> Inl AttributeError)"

text \<open>\<open>transfer.get(k1, {}).get(k2, default)\<close>.\<close>

definition get2 :: "pyval \<Rightarrow> string \<Rightarrow> string \<Rightarrow> pyval \<Rightarrow> error + pyval" where
  "get2 t k1 k2 dflt =
     and_then (dict_get t (str k1) (PDict [])) (\<lambda>sub. dict_get sub (str k2) dflt)"

definition get1 :: "pyval \<Rightarrow> string \<Rightarrow> pyval \<Rightarrow> error + pyval" where
  "get1 t k dflt = dict_get t (str k) dflt"

text \<open>The dict literal of the loop body; its entries are evaluated in order.\<close>

definition make_record :: "pyval \<Rightarrow> error + raw_record" where
  "make_record t =
     and_then (get2 t ''player'' ''id'' (PStr [])) (\<lambda>a1.
     and_then (get2 t ''player'' ''name'' (PStr [])) (\<lambda>a2.
     and_then (get2 t ''player'' ''age'' (PInt 0)) (\<lambda>a3.
     and_then (get2 t ''player'' ''position'' (PStr [])) (\<lambda>a4.
     and_then (get2 t ''player'' ''nationality'' (PStr [])) (\<lambda>a5.
     and_then (get2 t ''from_club'' ''id'' (PStr [])) (\<lambda>a6.
     and_then (get2 t ''from_club'' ''name'' (PStr [])) (\<lambda>a7.
     and_then (get2 t ''from_club'' ''league'' (PStr [])) (\<lambda>a8.
     and_then (get2 t ''to_club'' ''id'' (PStr [])) (\<lambda>a9.
     and_then (get2 t ''to_club'' ''name'' (PStr [])) (\<lambda>a10.
     and_then (get2 t ''to_club'' ''league'' (PStr [])) (\<lambda>a11.
     and_then (and_then (get1 t ''fee'' (PStr [])) parse_transfer_fee) (\<lambda>a12.
     and_then (get1 t ''fee_currency'' (PStr (str ''EUR''))) (\<lambda>a13.
     and_then (get1 t ''date'' (PStr [])) (\<lambda>a14.
     and_then (get1 t ''type'' (PStr [])) (\<lambda>a15.
     and_then (get1 t ''contract_duration'' (PStr [])) (\<lambda>a16.
     and_then (get1 t ''season'' (PStr [])) (\<lambda>a17.
     and_then (get2 t ''player'' ''market_value'' (PInt 0)) (\<lambda>a18.
     Inr \<lparr> player_id = a1, player_name = a2, player_age = a3, player_position = a4,
           player_nationality = a5, from_club_id = a6, from_club_name = a7,
           from_club_league = a8, to_club_id = a9, to_club_name = a10,
           to_club_league = a11, transfer_fee = a12, transfer_fee_currency = a13,
           transfer_date = a14, transfer_type = a15, contract_duration = a16,
           season = a17, market_value = a18 \<rparr>))))))))))))))))))"

text \<open>The loop over the raw records: the first exception ends it.\<close>

fun make_records :: "pyval list \<Rightarrow> error + raw_record list" where
  "make_records [] = Inr []"
| "make_records (t # ts) =
     and_then (make_record t) (\<lambda>r. and_then (make_records ts) (\<lambda>rs. Inr (r # rs)))"

text \<open>
  \<open>pd.to_numeric(column, errors='coerce')\<close> on a column of the DataFrame. The value
  is the number the converted column holds; its integer and float types are not told
  apart. A column of integers in the 64-bit range is numeric already and is returned as
  it is. Elsewhere \<open>None\<close>, an empty string, a list and a dict become NaN, a float
  stays and a truth value is 1 or 0. How pandas reads the integers and the non-empty
  strings of such a column is its own matter and can raise (OverflowError on an integer
  beyond the float range): it is the parameter \<open>obj_num\<close>, which gives for the column
  an exception or the number at each position.
\<close>

definition is_int64 :: "pyval \<Rightarrow> bool" where
  "is_int64 v = (case v of PInt n \<Rightarrow> - (2 ^ 63) \<le> n \<and> n < 2 ^ 63 | _ \<Rightarrow> False)"

definition needs_parser :: "pyval \<Rightarrow> bool" where
  "needs_parser v = (case v of PInt n \<Rightarrow> True | PStr s \<Rightarrow> s \<noteq> [] | _ \<Rightarrow> False)"

fun int64_num :: "pyval \<Rightarrow> pyfloat" where
  "int64_num (PInt n) = Fin (of_int n)"
| "int64_num v = NaN"

fun elem_num :: "(nat \<Rightarrow> pyfloat) \<Rightarrow> nat \<Rightarrow> pyval \<Rightarrow> pyfloat" where
  "elem_num num i PNone = NaN"
| "elem_num num i (PBool b) = Fin (if b then 1 else 0)"
| "elem_num num i (PInt n) = num i"
| "elem_num num i (PFloat f) = f"
| "elem_num num i (PStr s) = (if s = [] then NaN else num i)"
| "elem_num num i (PList xs) = NaN"
| "elem_num num i (PDict kvs) = NaN"

definition to_numeric ::
  "(pyval list \<Rightarrow> error + (nat \<Rightarrow> pyfloat)) \<Rightarrow> pyval list \<Rightarrow> error + pyfloat list" where
  "to_numeric obj_num col =
     (if list_all is_int64 col then Inr (map int64_num col)
      else if list_ex needs_parser col then
        and_then (obj_num col) (\<lambda>num.
          Inr (map (\<lambda>i. elem_num num i (col ! i)) [0 ..< length col]))
      else Inr (map (elem_num (\<lambda>i. NaN) 0) col))"

text \<open>
  \<open>pd.to_datetime(column, errors='coerce')\<close>. A column of empty strings, the default
  of the lookup, is NaT throughout. How pandas reads any other column is the parameter
  \<open>parse_dates\<close>: an exception or the timestamp at each position, NaT where the value
  is not a date.
\<close>

definition to_datetime ::
  "(pyval list \<Rightarrow> error + (nat \<Rightarrow> timestamp option)) \<Rightarrow> pyval list \<Rightarrow>
   error + timestamp option list" where
  "to_datetime parse_dates col =
     (if list_all (\<lambda>v. v = PStr []) col then Inr (map (\<lambda>v. None) col)
      else and_then (parse_dates col) (\<lambda>d. Inr (map d [0 ..< length col])))"

text \<open>A row of the converted DataFrame: the record with its four converted columns.\<close>

definition convert_row ::
  "raw_record \<Rightarrow> timestamp option \<Rightarrow> pyfloat \<Rightarrow> pyfloat \<Rightarrow> pyfloat \<Rightarrow> row" where
  "convert_row r d a f m =
     \<lparr> player_id = player_id r, player_name = player_name r, player_age = a,
       player_position = player_position r, player_nationality = player_nationality r,
       from_club_id = from_club_id r, from_club_name = from_club_name r,
       from_club_league = from_club_league r, to_club_id = to_club_id r,
       to_club_name = to_club_name r, to_club_league = to_club_league r,
       transfer_fee = f, transfer_fee_currency = transfer_fee_currency r,
       transfer_date = d, transfer_type = transfer_type r,
       contract_duration = contract_duration r, season = season r, market_value = m \<rparr>"

text \<open>
  \<open>process_transfer_data\<close>; the empty DataFrame is the empty list of rows. The four
  conversions run in the order of the source and the first exception ends the call.
\<close>

definition process_transfer_data ::
  "(pyval list \<Rightarrow> error + (nat \<Rightarrow> timestamp option)) \<Rightarrow>
   (pyval list \<Rightarrow> error + (nat \<Rightarrow> pyfloat)) \<Rightarrow> pyval list \<Rightarrow> error + row list" where
  "process_transfer_data parse_dates obj_num transfers =
     (if transfers = [] then Inr []
      else
        and_then (make_records transfers) (\<lambda>recs.
        and_then (to_datetime parse_dates (map transfer_date recs)) (\<lambda>dates.
        and_then (to_numeric obj_num (map player_age recs)) (\<lambda>ages.
        and_then (to_numeric obj_num (map (\<lambda>r. PFloat (transfer_fee r)) recs)) (\<lambda>fs.
        and_then (to_numeric obj_num (map market_value recs)) (\<lambda>ms.
        Inr (map (\<lambda>i. convert_row (recs ! i) (dates ! i) (ages ! i) (fs ! i) (ms ! i))
               [0 ..< length recs])))))))"

section \<open>Float columns\<close>

text \<open>One addition of two floats, rounded.\<close>

fun fadd :: "pyfloat \<Rightarrow> pyfloat \<Rightarrow> pyfloat" where
  "fadd (Fin a) (Fin b) = round_double (a + b)"
| "fadd NaN y = NaN"
| "fadd x NaN = NaN"
| "fadd PosInf NegInf = NaN"
| "fadd NegInf PosInf = NaN"
| "fadd PosInf y = PosInf"
| "fadd x PosInf = PosInf"
| "fadd NegInf y = NegInf"
| "fadd x NegInf = NegInf"

text \<open>\<open>x < y\<close> on floats: false as soon as one side is NaN.\<close>

fun flt :: "pyfloat \<Rightarrow> pyfloat \<Rightarrow> bool" where
  "flt (Fin a) (Fin b) = (a < b)"
| "flt NegInf (Fin b) = True"
| "flt NegInf PosInf = True"
| "flt (Fin a) PosInf = True"
| "flt x y = False"

definition dropna :: "pyfloat list \<Rightarrow> pyfloat list" where
  "dropna xs = filter (\<lambda>x. \<not> isna x) xs"

text \<open>
  \<open>Series.sum\<close>, \<open>mean\<close>, \<open>median\<close> and \<open>max\<close> skip the missing values. The sum adds
  from left to right; pandas may add in another order, which gives the same float
  wherever no addition rounds.
\<close>

definition series_sum :: "pyfloat list \<Rightarrow> pyfloat" where
  "series_sum xs = foldl fadd (Fin 0) (dropna xs)"

definition series_mean :: "pyfloat list \<Rightarrow> pyfloat" where
  "series_mean xs =
     (let ys = dropna xs in
      if ys = [] then NaN else fdiv (series_sum xs) (real (length ys)))"

fun insert_asc :: "pyfloat \<Rightarrow> pyfloat list \<Rightarrow> pyfloat list" where
  "insert_asc x [] = [x]"
| "insert_asc x (y # ys) = (if flt x y then x # y # ys else y # insert_asc x ys)"

definition sort_asc :: "pyfloat list \<Rightarrow> pyfloat list" where
  "sort_asc xs = foldl (\<lambda>acc x. insert_asc x acc) [] xs"

definition series_median :: "pyfloat list \<Rightarrow> pyfloat" where
  "series_median xs =
     (let ys = sort_asc (dropna xs); n = length ys in
      if n = 0 then NaN
      else if odd n then ys ! (n div 2)
      else fdiv (fadd (ys ! (n div 2 - 1)) (ys ! (n div 2))) 2)"

text \<open>
  A scan for the largest value: the position and value of the largest value that is not
  missing, the first one where several are equal.
\<close>

fun argmax_from :: "pyfloat list \<Rightarrow> nat \<Rightarrow> (nat \<times> pyfloat) option \<Rightarrow> (nat \<times> pyfloat) option" where
  "argmax_from [] i best = best"
| "argmax_from (x # xs) i best =
     argmax_from xs (Suc i)
       (if isna x then best
        else (case best of
                None \<Rightarrow> Some (i, x)
              | Some (j, y) \<Rightarrow> if flt y x then Some (i, x) else best))"

definition series_max :: "pyfloat list \<Rightarrow> pyfloat" where
  "series_max xs = (case argmax_from xs 0 None of None \<Rightarrow> NaN | Some (i, y) \<Rightarrow> y)"

text \<open>
  \<open>idxmax\<close> puts minus infinity in the place of the missing values and takes the
  first position of the largest value of the column so filled; on a column with no value
  it raises ValueError.
\<close>

definition fill_na :: "pyfloat \<Rightarrow> pyfloat" where
  "fill_na x = (if isna x then NegInf else x)"

definition idxmax :: "pyfloat list \<Rightarrow> error + nat" where
  "idxmax xs =
     (if list_all isna xs then Inl ValueError
      else (case argmax_from (map fill_na xs) 0 None of
              None \<Rightarrow> Inl ValueError
            | Some (i, y) \<Rightarrow> Inr i))"

text \<open>
  \<open>groupby(keys)[column].sum()\<close>: one entry for each key that occurs, in ascending
  key order; a row with a missing key is in no group, and the sum of a group skips the
  missing values.
\<close>

definition group_values :: "'k option list \<Rightarrow> pyfloat list \<Rightarrow> 'k \<Rightarrow> pyfloat list" where
  "group_values keys vals k = map snd (filter (\<lambda>kv. fst kv = Some k) (zip keys vals))"

definition groupby_sum :: "('k::linorder) option list \<Rightarrow> pyfloat list \<Rightarrow> ('k \<times> pyfloat) list" where
  "groupby_sum keys vals =
     map (\<lambda>k. (k, series_sum (group_values keys vals k)))
       (sort (remdups (List.map_filter (\<lambda>k. k) keys)))"

text \<open>
  \<open>nlargest(n)\<close>: the entries whose value is not missing in descending order of
  value, equal values in their order of appearance, then the entries whose value is
  missing, the whole cut after \<open>n\<close>.
\<close>

fun insert_desc :: "'k \<times> pyfloat \<Rightarrow> ('k \<times> pyfloat) list \<Rightarrow> ('k \<times> pyfloat) list" where
  "insert_desc x [] = [x]"
| "insert_desc x (y # ys) =
     (if flt (snd y) (snd x) then x # y # ys else y # insert_desc x ys)"

definition nlargest :: "nat \<Rightarrow> ('k \<times> pyfloat) list \<Rightarrow> ('k \<times> pyfloat) list" where
  "nlargest n kvs =
     take n (foldl (\<lambda>acc x. insert_desc x acc) [] (filter (\<lambda>kv. \<not> isna (snd kv)) kvs)
             @ filter (\<lambda>kv. isna (snd kv)) kvs)"

text \<open>\<open>value_counts().to_dict()\<close>, read as a mapping: the order of the entries is not modelled.\<close>

definition value_counts :: "'a list \<Rightarrow> ('a \<times> nat) list" where
  "value_counts xs = map (\<lambda>v. (v, count_list xs v)) (remdups xs)"

section \<open>The summarizer\<close>

text \<open>
  The table the summarizer reads: its object columns hold strings, its numeric columns
  floats (NaN where missing), its date column timestamps (NaT where missing), and its
  index is the position of the row.
\<close>

type_synonym table_row = "(pystr, pyfloat, timestamp option) flat_transfer"

record most_expensive =
  player :: pystr
  fee :: pyfloat
  from_club :: pystr
  to_club :: pystr

record summary =
  total_transfers :: nat
  total_spending :: pyfloat
  average_fee :: pyfloat
  median_fee :: pyfloat
  most_expensive_transfer :: most_expensive
  transfers_by_position :: "(pystr \<times> nat) list"
  transfers_by_month :: "(nat \<times> pyfloat) list"
  top_spending_clubs :: "(pystr \<times> pyfloat) list"
  top_selling_clubs :: "(pystr \<times> pyfloat) list"

text \<open>The returned dict: \<open>{}\<close> or the nine entries.\<close>

datatype report = Empty_report | Report summary

definition fees :: "table_row list \<Rightarrow> pyfloat list" where
  "fees df = map transfer_fee df"

text \<open>
  \<open>df.loc[df['transfer_fee'].idxmax(), column] if not df['transfer_fee'].isna().all()
  else ''\<close>.
\<close>

definition loc_idxmax :: "table_row list \<Rightarrow> (table_row \<Rightarrow> pystr) \<Rightarrow> error + pystr" where
  "loc_idxmax df column =
     (if \<not> list_all isna (fees df) then and_then (idxmax (fees df)) (\<lambda>i. Inr (column (df ! i)))
      else Inr [])"

definition month_sums :: "table_row list \<Rightarrow> (nat \<times> pyfloat) list" where
  "month_sums df = groupby_sum (map (\<lambda>r. map_option ts_month (transfer_date r)) df) (fees df)"

definition club_sums :: "(table_row \<Rightarrow> pystr) \<Rightarrow> table_row list \<Rightarrow> (pystr \<times> pyfloat) list" where
  "club_sums column df = nlargest 10 (groupby_sum (map (\<lambda>r. Some (column r)) df) (fees df))"

definition generate_transfer_summary :: "table_row list \<Rightarrow> error + report" where
  "generate_transfer_summary df =
     (if df = [] then Inr Empty_report
      else
        and_then (loc_idxmax df player_name) (\<lambda>p.
        and_then (loc_idxmax df from_club_name) (\<lambda>f.
        and_then (loc_idxmax df to_club_name) (\<lambda>t.
        Inr (Report
          \<lparr> total_transfers = length df,
            total_spending = series_sum (fees df),
            average_fee = series_mean (fees df),
            median_fee = series_median (fees df),
            most_expensive_transfer =
              \<lparr> player = p, fee = series_max (fees df), from_club = f, to_club = t \<rparr>,
            transfers_by_position = value_counts (map player_position df),
            transfers_by_month = month_sums df,
            top_spending_clubs = club_sums to_club_name df,
            top_selling_clubs = club_sums from_club_name df \<rparr>)))))"

text \<open>
  The raw records on which the loop body raises nothing: a dict whose \<open>player\<close>,
  \<open>from_club\<close> and \<open>to_club\<close> entries, where present, are dicts, and whose \<open>fee\<close>
  entry, where present, is a string or a falsy value.
\<close>

definition sub_ok :: "(pystr \<times> pyval) list \<Rightarrow> string \<Rightarrow> bool" where
  "sub_ok kvs k = (case map_of kvs (str k) of None \<Rightarrow> True | Some (PDict sub) \<Rightarrow> True | Some _ \<Rightarrow> False)"

definition fee_ok :: "(pystr \<times> pyval) list \<Rightarrow> bool" where
  "fee_ok kvs =
     (case map_of kvs (str ''fee'') of
        None \<Rightarrow> True
      | Some (PStr s) \<Rightarrow> True
      | Some v \<Rightarrow> \<not> truthy v)"

definition well_formed :: "pyval \<Rightarrow> bool" where
  "well_formed t =
     (case t of
        PDict kvs \<Rightarrow>
          sub_ok kvs ''player'' \<and> sub_ok kvs ''from_club'' \<and> sub_ok kvs ''to_club'' \<and> fee_ok kvs
      | _ \<Rightarrow> False)"

text \<open>
  Two stand-ins for the pandas parsers, for evaluating on records that hold neither a
  date nor a number to parse: every date is NaT, every parsed value is NaN.
\<close>

definition all_nat :: "pyval list \<Rightarrow> error + (nat \<Rightarrow> timestamp option)" where
  "all_nat column = Inr (\<lambda>i. None)"

definition no_number :: "pyval list \<Rightarrow> error + (nat \<Rightarrow> pyfloat)" where
  "no_number column = Inr (\<lambda>i. NaN)"


text \<open>\<open>x <= y\<close> on floats that are not NaN.\<close>

definition fle :: "pyfloat \<Rightarrow> pyfloat \<Rightarrow> bool" where
  "fle x y = (x = y \<or> flt x y)"

text \<open>A row of empty strings and missing values, to build example tables from.\<close>

definition blank_row :: table_row where
  "blank_row =
     \<lparr> player_id = [], player_name = [], player_age = NaN, player_position = [],
       player_nationality = [], from_club_id = [], from_club_name = [],
       from_club_league = [], to_club_id = [], to_club_name = [], to_club_league = [],
       transfer_fee = NaN, transfer_fee_currency = [], transfer_date = None,
       transfer_type = [], contract_duration = [], season = [], market_value = NaN \<rparr>"






section \<open>Rounding\<close>

lemma round_half_even_int: "round_half_even (of_int z) = z"
  by (simp add: round_half_even_def)

text \<open>A multiple of \<open>2 ^ - k\<close> with a numerator below \<open>2 ^ 53\<close> is a double.\<close>

lemma round_double_dyadic:
  assumes "x * 2 ^ k \<in> \<int>" and "\<bar>x\<bar> * 2 ^ k < 2 ^ 53" and "k \<le> 1074"
  shows "round_double x = Fin x"
proof (cases "x = 0")
  case True
  then show ?thesis by (simp add: round_double_def)
next
  case False
  from assms(1) obtain m :: int where m: "x * 2 ^ k = of_int m"
    by (auto elim: Ints_cases)
  define q where "q = max (\<lfloor>log 2 \<bar>x\<bar>\<rfloor> - 52) (- 1074)"
  have xpos: "0 < \<bar>x\<bar>" using False by simp
  have "\<bar>x\<bar> < 2 ^ 53 / 2 ^ k"
    using assms(2) by (simp add: field_simps)
  also have "\<dots> = 2 powr (53 - real k)"
    by (simp add: powr_diff powr_realpow)
  finally have "log 2 \<bar>x\<bar> < 53 - real k"
    using xpos by (simp add: log_less_iff)
  then have "\<lfloor>log 2 \<bar>x\<bar>\<rfloor> < 53 - int k"
    by (simp add: floor_less_iff)
  then have qle: "q \<le> - int k"
    using assms(3) by (simp add: q_def)
  define j where "j = nat (- int k - q)"
  have qj: "q = - int k - int j"
    using qle by (simp add: j_def)
  have p: "(2::real) powi q = 1 / (2 ^ k * 2 ^ j)"
    by (simp add: qj power_int_diff power_int_minus field_simps)
  have "x / 2 powi q = x * 2 ^ k * 2 ^ j"
    by (simp add: p)
  also have "\<dots> = of_int (m * 2 ^ j)"
    by (simp add: m)
  finally have r: "round_half_even (x / 2 powi q) = m * 2 ^ j"
    by (simp only: round_half_even_int)
  have y: "of_int (round_half_even (x / 2 powi q)) * 2 powi q = x"
  proof -
    have "of_int (m * 2 ^ j) * (2::real) powi q = (x * 2 ^ k * 2 ^ j) / (2 ^ k * 2 ^ j)"
      by (simp add: p m)
    also have "\<dots> = x" by simp
    finally show ?thesis by (simp only: r)
  qed
  have "\<bar>x\<bar> \<le> \<bar>x\<bar> * 2 ^ k"
    by (simp add: mult_le_cancel_left1)
  also have "\<dots> < 2 ^ 53" by (rule assms(2))
  also have "\<dots> \<le> (2::real) ^ 1024" by (rule power_increasing) simp_all
  finally have small: "\<not> 2 ^ 1024 \<le> \<bar>x\<bar>" by simp
  show ?thesis
    using False small
    by (simp only: round_double_def Let_def q_def [symmetric] y if_False)
qed

lemma round_double_numeral:
  "(numeral w :: real) < 2 ^ 53 \<Longrightarrow> round_double (numeral w) = Fin (numeral w)"
  using round_double_dyadic [of "numeral w" 0] by simp

lemma round_double_neg_numeral:
  "(numeral w :: real) < 2 ^ 53 \<Longrightarrow> round_double (- numeral w) = Fin (- numeral w)"
  using round_double_dyadic [of "- numeral w" 0] by simp

lemma round_double_half: "round_double (1 / 2) = Fin (1 / 2)"
  using round_double_dyadic [of "1 / 2" 1] by simp

lemma round_double_zero: "round_double 0 = Fin 0"
  by (simp add: round_double_def)

lemmas round_simps =
  round_double_numeral round_double_neg_numeral round_double_half round_double_zero

lemma round_double_not_nan: "round_double x \<noteq> NaN"
  by (simp add: round_double_def Let_def)

section \<open>Properties of the fee parser\<close>

lemmas float_defs =
  py_float_def float_text_def to_ascii_def strip_def is_space_def abs_float_def mantissa_def
  is_digit_def exponent_def dec_val_def scale_def lower_def lower_char_def str_def

lemmas fee_defs =
  parse_transfer_fee_def parse_fee_str_def fee_text_def fee_clean_def remove_char_def
  no_fee_markers_def or_zero_def euro_def pound_def dollar_def space_def

lemma parse_fee_str_fallback:
  assumes "py_float (fee_text s) = None"
  shows "parse_fee_str s = Fin 0"
  using assms
  by (simp add: parse_fee_str_def fee_text_def or_zero_def Let_def split: if_splits)

lemma parse_transfer_fee_str:
  "parse_transfer_fee (PStr s) = Inr (parse_fee_str s)"
  by (simp add: parse_transfer_fee_def parse_fee_str_def)

text \<open>
  C1. The fee parser on the six inputs of the specification: \<open>"\<euro>100M"\<close> gives
  100.0, \<open>"500K"\<close> and \<open>"500000"\<close> give 0.5, \<open>"Free transfer"\<close>, \<open>"garbage"\<close>
  and the empty string give 0.0. And for every string \<open>s\<close>: when \<open>float\<close> rejects the
  cleaned text of \<open>s\<close>, the parser returns 0.0 and does not raise.
\<close>

theorem parse_transfer_fee_examples:
  "parse_transfer_fee (PStr (euro # str ''100M'')) = Inr (Fin 100) \<and>
   parse_transfer_fee (PStr (str ''500K'')) = Inr (Fin 0.5) \<and>
   parse_transfer_fee (PStr (str ''500000'')) = Inr (Fin 0.5) \<and>
   parse_transfer_fee (PStr (str ''Free transfer'')) = Inr (Fin 0) \<and>
   parse_transfer_fee (PStr (str ''garbage'')) = Inr (Fin 0) \<and>
   parse_transfer_fee (PStr (str '''')) = Inr (Fin 0) \<and>
   (py_float (fee_text s) = None \<longrightarrow> parse_transfer_fee (PStr s) = Inr (Fin 0))"
proof (intro conjI impI)
  show "parse_transfer_fee (PStr (euro # str ''100M'')) = Inr (Fin 100)"
    by (simp add: fee_defs float_defs round_simps)
  show "parse_transfer_fee (PStr (str ''500K'')) = Inr (Fin 0.5)"
    by (simp add: fee_defs float_defs round_simps)
  show "parse_transfer_fee (PStr (str ''500000'')) = Inr (Fin 0.5)"
    by (simp add: fee_defs float_defs round_simps)
  show "parse_transfer_fee (PStr (str ''Free transfer'')) = Inr (Fin 0)"
    by (simp add: fee_defs float_defs)
  show "parse_transfer_fee (PStr (str ''garbage'')) = Inr (Fin 0)"
    by (simp add: fee_defs float_defs)
  show "parse_transfer_fee (PStr (str '''')) = Inr (Fin 0)"
    by (simp add: fee_defs float_defs)
next
  assume "py_float (fee_text s) = None"
  then show "parse_transfer_fee (PStr s) = Inr (Fin 0)"
    by (simp add: parse_transfer_fee_str parse_fee_str_fallback)
qed

theorem parse_transfer_fee_examples_witness:
  "py_float (fee_text (str ''12abc'')) = None \<and>
   parse_transfer_fee (PStr (str ''12abc'')) = Inr (Fin 0)"
proof -
  have h: "py_float (fee_text (str ''12abc'')) = None"
    by (simp add: fee_defs float_defs)
  with parse_transfer_fee_examples [of "str ''12abc''"] show ?thesis
    by blast
qed

text \<open>
  The fee parser beyond ASCII: a no-break space at the end is white space to \<open>float\<close>
  and an Arabic-Indic digit is a digit, so \<open>"100M"\<close> followed by U+00A0 gives 100.0 and
  U+0663 followed by \<open>"M"\<close> gives 3.0.
\<close>

lemma parse_transfer_fee_unicode:
  "parse_transfer_fee (PStr (str ''100M'' @ [160])) = Inr (Fin 100) \<and>
   parse_transfer_fee (PStr (1635 # str ''M'')) = Inr (Fin 3)"
  by (simp add: fee_defs float_defs round_simps uni_spaces_def decimal_of_def digit_zeros_def)

text \<open>
  C10. The fee parser can return a negative fee: \<open>"\<euro>-5M"\<close> gives -5.0. The no-fee
  marker \<open>"-"\<close> is compared with the whole lowered string, which it is not here, and
  the minus sign left after the currency sign is stripped is read by \<open>float\<close>.
\<close>

theorem parse_transfer_fee_negative:
  "parse_transfer_fee (PStr (euro # str ''-5M'')) = Inr (Fin (- 5)) \<and>
   lower (euro # str ''-5M'') \<notin> set no_fee_markers \<and>
   fee_text (euro # str ''-5M'') = str ''-5''"
  by (simp add: fee_defs float_defs round_simps)

section \<open>Properties of the normalizer\<close>

lemma get1_dict: "get1 (PDict kvs) k d = Inr (case map_of kvs (str k) of None \<Rightarrow> d | Some v \<Rightarrow> v)"
  by (simp add: get1_def dict_get_def)

lemma get2_ok:
  assumes "sub_ok kvs k1"
  shows "\<exists>v. get2 (PDict kvs) k1 k2 d = Inr v"
  using assms
  by (auto simp: sub_ok_def get2_def dict_get_def and_then_def split: option.splits pyval.splits)

lemma get2_bad:
  assumes "\<not> sub_ok kvs k1"
  shows "get2 (PDict kvs) k1 k2 d = Inl AttributeError"
  using assms
  by (auto simp: sub_ok_def get2_def dict_get_def and_then_def split: option.splits pyval.splits)

lemma get2_not_dict:
  assumes "\<And>kvs. t \<noteq> PDict kvs"
  shows "get2 t k1 k2 d = Inl AttributeError"
  using assms
  by (cases t) (auto simp: get2_def dict_get_def and_then_def)

lemma fee_field_ok:
  assumes "fee_ok kvs"
  shows "\<exists>f. and_then (get1 (PDict kvs) ''fee'' (PStr [])) parse_transfer_fee = Inr f"
  using assms
  by (auto simp: fee_ok_def get1_dict and_then_def parse_transfer_fee_def split: option.splits pyval.splits)

lemma fee_field_bad:
  assumes "\<not> fee_ok kvs"
  shows "and_then (get1 (PDict kvs) ''fee'' (PStr [])) parse_transfer_fee = Inl AttributeError"
  using assms
  by (auto simp: fee_ok_def get1_dict and_then_def parse_transfer_fee_def split: option.splits pyval.splits)

lemma make_record_ok:
  assumes "well_formed t"
  shows "\<exists>r. make_record t = Inr r"
proof -
  from assms obtain kvs where t: "t = PDict kvs"
    and p: "sub_ok kvs ''player''" and f: "sub_ok kvs ''from_club''"
    and c: "sub_ok kvs ''to_club''" and e: "fee_ok kvs"
    by (auto simp: well_formed_def split: pyval.splits)
  note g = get2_ok [OF p] get2_ok [OF f] get2_ok [OF c]
  obtain a1 where a1: "get2 (PDict kvs) ''player'' ''id'' (PStr []) = Inr a1" using g by blast
  obtain a2 where a2: "get2 (PDict kvs) ''player'' ''name'' (PStr []) = Inr a2" using g by blast
  obtain a3 where a3: "get2 (PDict kvs) ''player'' ''age'' (PInt 0) = Inr a3" using g by blast
  obtain a4 where a4: "get2 (PDict kvs) ''player'' ''position'' (PStr []) = Inr a4" using g by blast
  obtain a5 where a5: "get2 (PDict kvs) ''player'' ''nationality'' (PStr []) = Inr a5" using g by blast
  obtain a6 where a6: "get2 (PDict kvs) ''from_club'' ''id'' (PStr []) = Inr a6" using g by blast
  obtain a7 where a7: "get2 (PDict kvs) ''from_club'' ''name'' (PStr []) = Inr a7" using g by blast
  obtain a8 where a8: "get2 (PDict kvs) ''from_club'' ''league'' (PStr []) = Inr a8" using g by blast
  obtain a9 where a9: "get2 (PDict kvs) ''to_club'' ''id'' (PStr []) = Inr a9" using g by blast
  obtain a10 where a10: "get2 (PDict kvs) ''to_club'' ''name'' (PStr []) = Inr a10" using g by blast
  obtain a11 where a11: "get2 (PDict kvs) ''to_club'' ''league'' (PStr []) = Inr a11" using g by blast
  obtain a12 where a12: "and_then (get1 (PDict kvs) ''fee'' (PStr [])) parse_transfer_fee = Inr a12"
    using fee_field_ok [OF e] by blast
  obtain a18 where a18: "get2 (PDict kvs) ''player'' ''market_value'' (PInt 0) = Inr a18" using g by blast
  show ?thesis
    unfolding t make_record_def a1 a2 a3 a4 a5 a6 a7 a8 a9 a10 a11 a12 a18
    by (simp add: and_then_def get1_dict)
qed

lemma make_record_bad:
  assumes "\<not> well_formed t"
  shows "make_record t = Inl AttributeError"
proof (cases "\<exists>kvs. t = PDict kvs")
  case False
  then have "get2 t ''player'' ''id'' (PStr []) = Inl AttributeError"
    by (intro get2_not_dict) blast
  then show ?thesis by (simp add: make_record_def and_then_def)
next
  case True
  then obtain kvs where t: "t = PDict kvs" by blast
  show ?thesis
  proof (cases "sub_ok kvs ''player''")
    case False
    then show ?thesis by (simp add: t make_record_def and_then_def get2_bad)
  next
    case p: True
    note gp = get2_ok [OF p]
    obtain a1 where a1: "get2 (PDict kvs) ''player'' ''id'' (PStr []) = Inr a1" using gp by blast
    obtain a2 where a2: "get2 (PDict kvs) ''player'' ''name'' (PStr []) = Inr a2" using gp by blast
    obtain a3 where a3: "get2 (PDict kvs) ''player'' ''age'' (PInt 0) = Inr a3" using gp by blast
    obtain a4 where a4: "get2 (PDict kvs) ''player'' ''position'' (PStr []) = Inr a4" using gp by blast
    obtain a5 where a5: "get2 (PDict kvs) ''player'' ''nationality'' (PStr []) = Inr a5" using gp by blast
    note ap = a1 a2 a3 a4 a5
    show ?thesis
    proof (cases "sub_ok kvs ''from_club''")
      case False
      then show ?thesis
        unfolding t make_record_def ap by (simp add: and_then_def get2_bad)
    next
      case f: True
      note gf = get2_ok [OF f]
      obtain a6 where a6: "get2 (PDict kvs) ''from_club'' ''id'' (PStr []) = Inr a6" using gf by blast
      obtain a7 where a7: "get2 (PDict kvs) ''from_club'' ''name'' (PStr []) = Inr a7" using gf by blast
      obtain a8 where a8: "get2 (PDict kvs) ''from_club'' ''league'' (PStr []) = Inr a8" using gf by blast
      note af = a6 a7 a8
      show ?thesis
      proof (cases "sub_ok kvs ''to_club''")
        case False
        then show ?thesis
          unfolding t make_record_def ap af by (simp add: and_then_def get2_bad)
      next
        case c: True
        note gc = get2_ok [OF c]
        obtain a9 where a9: "get2 (PDict kvs) ''to_club'' ''id'' (PStr []) = Inr a9" using gc by blast
        obtain a10 where a10: "get2 (PDict kvs) ''to_club'' ''name'' (PStr []) = Inr a10" using gc by blast
        obtain a11 where a11: "get2 (PDict kvs) ''to_club'' ''league'' (PStr []) = Inr a11" using gc by blast
        from assms p f c have "\<not> fee_ok kvs"
          by (simp add: well_formed_def t)
        then have "and_then (get1 (PDict kvs) ''fee'' (PStr [])) parse_transfer_fee = Inl AttributeError"
          by (rule fee_field_bad)
        then show ?thesis
          unfolding t make_record_def ap af a9 a10 a11 by (simp add: and_then_def)
      qed
    qed
  qed
qed


lemma make_records_ok:
  assumes "list_all well_formed ts"
  shows "\<exists>rs. make_records ts = Inr rs \<and> length rs = length ts"
  using assms
proof (induction ts)
  case Nil
  then show ?case by simp
next
  case (Cons t ts)
  then obtain rs where rs: "make_records ts = Inr rs" "length rs = length ts"
    by auto
  from Cons.prems obtain r where r: "make_record t = Inr r"
    using make_record_ok by auto
  show ?case
    by (simp add: r rs and_then_def)
qed

lemma make_records_bad:
  assumes "\<not> list_all well_formed ts"
  shows "make_records ts = Inl AttributeError"
  using assms
proof (induction ts)
  case Nil
  then show ?case by simp
next
  case (Cons t ts)
  show ?case
  proof (cases "well_formed t")
    case False
    then show ?thesis
      by (simp add: make_record_bad and_then_def)
  next
    case True
    then obtain r where r: "make_record t = Inr r"
      using make_record_ok by blast
    from True Cons.prems have "\<not> list_all well_formed ts" by simp
    then have "make_records ts = Inl AttributeError" by (rule Cons.IH)
    then show ?thesis
      by (simp add: r and_then_def)
  qed
qed

lemmas record_defs = make_record_def get2_def get1_def dict_get_def and_then_def str_def

lemma to_numeric_floats: "to_numeric obj_num (map PFloat fs) = Inr fs"
proof (cases fs)
  case Nil
  then show ?thesis by (simp add: to_numeric_def)
next
  case (Cons f fs')
  have "map (elem_num (\<lambda>i. NaN) 0) (map PFloat fs) = fs"
    by (induction fs) simp_all
  moreover have "\<not> list_ex needs_parser (map PFloat fs)"
    by (induction fs) (simp_all add: needs_parser_def)
  ultimately show ?thesis
    using Cons by (simp add: to_numeric_def is_int64_def)
qed


lemma to_numeric_zero: "to_numeric obj_num [PInt 0] = Inr [Fin 0]"
  by (simp add: to_numeric_def is_int64_def)

lemma to_datetime_blank: "to_datetime parse_dates [PStr []] = Inr [None]"
  by (simp add: to_datetime_def)

text \<open>
  C3 (amended). The loop that builds the records is total on the well-formed raw
  records: for every list of raw records that are dicts whose \<open>player\<close>, \<open>from_club\<close>
  and \<open>to_club\<close> entries, where present, are dicts and whose \<open>fee\<close> entry, where
  present, is a string or a falsy value, it returns one record for each raw record, each
  with all the fixed fields, and raises nothing. On every other raw record the loop body
  raises AttributeError, and so does \<open>process_transfer_data\<close> on a list that holds one.
  The conversions of the columns that follow the loop are no part of this statement.
\<close>

theorem make_records_total_on_well_formed:
  "(list_all well_formed ts \<longrightarrow> (\<exists>rs. make_records ts = Inr rs \<and> length rs = length ts)) \<and>
   (\<not> well_formed t \<longrightarrow> make_record t = Inl AttributeError) \<and>
   (\<not> list_all well_formed ts \<longrightarrow>
      process_transfer_data parse_dates obj_num ts = Inl AttributeError)"
proof (intro conjI impI)
  assume "list_all well_formed ts"
  then show "\<exists>rs. make_records ts = Inr rs \<and> length rs = length ts"
    by (rule make_records_ok)
next
  assume "\<not> well_formed t"
  then show "make_record t = Inl AttributeError"
    by (rule make_record_bad)
next
  assume bad: "\<not> list_all well_formed ts"
  then have "ts \<noteq> []" by auto
  with make_records_bad [OF bad]
  show "process_transfer_data parse_dates obj_num ts = Inl AttributeError"
    by (simp add: process_transfer_data_def and_then_def)
qed

theorem make_records_total_witness:
  "list_all well_formed [PDict [], PDict [(str ''player'', PDict [(str ''name'', PStr (str ''X''))]), (str ''fee'', PStr (str ''5M''))]] \<and>
   (\<exists>rs. make_records
       [PDict [], PDict [(str ''player'', PDict [(str ''name'', PStr (str ''X''))]), (str ''fee'', PStr (str ''5M''))]] = Inr rs
      \<and> length rs = 2) \<and>
   \<not> well_formed (PDict [(str ''to_club'', PNone)]) \<and>
   make_record (PDict [(str ''to_club'', PNone)]) = Inl AttributeError \<and>
   \<not> list_all well_formed [PDict [], PDict [(str ''to_club'', PNone)]] \<and>
   process_transfer_data all_nat no_number [PDict [], PDict [(str ''to_club'', PNone)]] =
     Inl AttributeError"
proof -
  have a: "list_all well_formed [PDict [], PDict [(str ''player'', PDict [(str ''name'', PStr (str ''X''))]), (str ''fee'', PStr (str ''5M''))]]"
    by (simp add: well_formed_def sub_ok_def fee_ok_def str_def)
  have b: "\<not> well_formed (PDict [(str ''to_club'', PNone)])"
    by (simp add: well_formed_def sub_ok_def fee_ok_def str_def)
  have c: "\<not> list_all well_formed [PDict [], PDict [(str ''to_club'', PNone)]]"
    using b by simp
  from a b make_records_total_on_well_formed
    [of "[PDict [], PDict [(str ''player'', PDict [(str ''name'', PStr (str ''X''))]), (str ''fee'', PStr (str ''5M''))]]"
        "PDict [(str ''to_club'', PNone)]"]
  have 1: "\<exists>rs. make_records
       [PDict [], PDict [(str ''player'', PDict [(str ''name'', PStr (str ''X''))]), (str ''fee'', PStr (str ''5M''))]] = Inr rs
      \<and> length rs = 2"
    and 2: "make_record (PDict [(str ''to_club'', PNone)]) = Inl AttributeError"
    by auto
  from c make_records_total_on_well_formed
    [of "[PDict [], PDict [(str ''to_club'', PNone)]]" _ all_nat no_number]
  have 3: "process_transfer_data all_nat no_number [PDict [], PDict [(str ''to_club'', PNone)]] =
     Inl AttributeError"
    by blast
  from a b c 1 2 3 show ?thesis by blast
qed

text \<open>
  A raw record that is a dict and on which normalization raises: the fee is the number
  100, and \<open>fee_string.lower()\<close> is outside the \<open>try\<close>.
\<close>

theorem make_record_raises_counterexample:
  "make_record (PDict [(str ''fee'', PInt 100)]) = Inl AttributeError \<and>
   process_transfer_data all_nat no_number [PDict [(str ''fee'', PInt 100)]] = Inl AttributeError"
  by (simp add: process_transfer_data_def record_defs parse_transfer_fee_def)







lemma fneg_nan: "fneg f = NaN \<longleftrightarrow> f = NaN"
  by (cases f) simp_all

lemma fdiv_nan: "fdiv f c = NaN \<longleftrightarrow> f = NaN"
  by (cases f) (simp_all add: round_double_not_nan)

lemma abs_float_nan: "abs_float s = Some NaN \<longleftrightarrow> lower s = str ''nan''"
proof (cases "lower s = str ''inf'' \<or> lower s = str ''infinity''")
  case True
  then have "lower s \<noteq> str ''nan''"
    by (auto simp: str_def)
  with True show ?thesis
    by (simp add: abs_float_def)
next
  case False
  then show ?thesis
    by (simp add: abs_float_def round_double_not_nan split: option.splits)
qed

lemma py_float_nan:
  "py_float r = Some NaN \<longleftrightarrow> lower (snd (opt_sign (float_text r))) = str ''nan''"
proof -
  obtain neg r' where o: "opt_sign (float_text r) = (neg, r')"
    by (cases "opt_sign (float_text r)")
  have "py_float r = Some NaN \<longleftrightarrow> abs_float r' = Some NaN"
    by (auto simp: py_float_def o fneg_nan split: option.splits)
  then show ?thesis
    by (simp add: abs_float_nan o)
qed

lemma or_zero_nan: "or_zero x = NaN \<longleftrightarrow> x = Some NaN"
  by (cases x) (simp_all add: or_zero_def)

lemma parse_fee_str_nan:
  "isna (parse_fee_str s) \<longleftrightarrow>
     s \<noteq> [] \<and> lower s \<notin> set no_fee_markers \<and> py_float (fee_text s) = Some NaN"
  by (auto simp: isna_def parse_fee_str_def fee_text_def Let_def or_zero_nan fdiv_nan)

lemma process_single_fee:
  assumes "make_record t = Inr r"
    and "process_transfer_data parse_dates obj_num [t] = Inr rows"
  shows "map transfer_fee rows = [transfer_fee r]"
  using assms(2) unfolding process_transfer_data_def
  by (auto simp: assms(1) and_then_def to_numeric_floats [of _ "[f]" for f, simplified]
      convert_row_def split: sum.splits)

text \<open>
  C9 (amended). For every well-formed raw record whose fee is a string \<open>s\<close>, the
  \<open>transfer_fee\<close> the normalizer computes is the float the fee parser returns for \<open>s\<close>,
  and \<open>to_numeric\<close> leaves it as it is in every table \<open>process_transfer_data\<close> returns.
  That float is missing (NaN) exactly when \<open>s\<close> is no no-fee marker and the text \<open>float\<close>
  reads is, after an optional sign, \<open>nan\<close> in any case; for every other string it is not
  missing.
\<close>

theorem normalized_fee_of_string:
  assumes "well_formed (PDict kvs)" and "map_of kvs (str ''fee'') = Some (PStr s)"
  shows "\<exists>r. make_record (PDict kvs) = Inr r \<and>
           transfer_fee r = parse_fee_str s \<and>
           (isna (transfer_fee r) \<longleftrightarrow>
              s \<noteq> [] \<and> lower s \<notin> set no_fee_markers \<and>
              lower (snd (opt_sign (float_text (fee_text s)))) = str ''nan'') \<and>
           (\<forall>rows. process_transfer_data parse_dates obj_num [PDict kvs] = Inr rows \<longrightarrow>
              map transfer_fee rows = [transfer_fee r])"
proof -
  from assms(1) obtain r where r: "make_record (PDict kvs) = Inr r"
    using make_record_ok by blast
  have fee: "and_then (get1 (PDict kvs) ''fee'' (PStr [])) parse_transfer_fee = Inr (parse_fee_str s)"
    by (simp add: get1_dict assms(2) and_then_def parse_transfer_fee_str)
  have f: "transfer_fee r = parse_fee_str s"
    using r unfolding make_record_def fee
    by (auto simp: and_then_def split: sum.splits)
  have "\<forall>rows. process_transfer_data parse_dates obj_num [PDict kvs] = Inr rows \<longrightarrow>
              map transfer_fee rows = [transfer_fee r]"
    using process_single_fee [OF r] by blast
  with r f show ?thesis
    by (simp add: parse_fee_str_nan py_float_nan)
qed

theorem normalized_fee_of_string_witness:
  "well_formed (PDict [(str ''fee'', PStr (str ''nan'' @ [160]))]) \<and>
   map_of [(str ''fee'', PStr (str ''nan'' @ [160]))] (str ''fee'') = Some (PStr (str ''nan'' @ [160])) \<and>
   (\<exists>r. make_record (PDict [(str ''fee'', PStr (str ''nan'' @ [160]))]) = Inr r \<and>
        isna (transfer_fee r))"
proof -
  have a: "well_formed (PDict [(str ''fee'', PStr (str ''nan'' @ [160]))])"
    by (simp add: well_formed_def sub_ok_def fee_ok_def str_def)
  have b: "map_of [(str ''fee'', PStr (str ''nan'' @ [160]))] (str ''fee'') = Some (PStr (str ''nan'' @ [160]))"
    by simp
  have c: "str ''nan'' @ [160] \<noteq> [] \<and> lower (str ''nan'' @ [160]) \<notin> set no_fee_markers \<and>
      lower (snd (opt_sign (float_text (fee_text (str ''nan'' @ [160]))))) = str ''nan''"
    by (simp add: fee_defs float_defs uni_spaces_def)
  from normalized_fee_of_string [OF a b, of all_nat no_number] c show ?thesis
    using a b by blast
qed

text \<open>
  The fee string \<open>"nan"\<close>: \<open>float\<close> reads it as NaN, so the fee of the normalized
  row is missing.
\<close>

theorem normalized_fee_null_counterexample:
  "process_transfer_data all_nat no_number [PDict [(str ''fee'', PStr (str ''nan''))]] =
     Inr [\<lparr> player_id = PStr [], player_name = PStr [], player_age = Fin 0,
            player_position = PStr [], player_nationality = PStr [],
            from_club_id = PStr [], from_club_name = PStr [], from_club_league = PStr [],
            to_club_id = PStr [], to_club_name = PStr [], to_club_league = PStr [],
            transfer_fee = NaN, transfer_fee_currency = PStr (str ''EUR''),
            transfer_date = None, transfer_type = PStr [], contract_duration = PStr [],
            season = PStr [], market_value = Fin 0 \<rparr>] \<and>
   isna NaN"
proof -
  have "make_record (PDict [(str ''fee'', PStr (str ''nan''))]) =
     Inr \<lparr> player_id = PStr [], player_name = PStr [], player_age = PInt 0,
           player_position = PStr [], player_nationality = PStr [],
           from_club_id = PStr [], from_club_name = PStr [], from_club_league = PStr [],
           to_club_id = PStr [], to_club_name = PStr [], to_club_league = PStr [],
           transfer_fee = NaN, transfer_fee_currency = PStr (str ''EUR''),
           transfer_date = PStr [], transfer_type = PStr [], contract_duration = PStr [],
           season = PStr [], market_value = PInt 0 \<rparr>"
    by (simp add: record_defs fee_defs float_defs)
  then show ?thesis
    unfolding process_transfer_data_def
    by (simp add: and_then_def to_datetime_blank to_numeric_zero isna_def
        to_numeric_floats [of _ "[NaN]", simplified] convert_row_def)
qed

section \<open>Properties of the summarizer\<close>

lemma argmax_from_all_na:
  assumes "list_all isna xs"
  shows "argmax_from xs i best = best"
  using assms by (induction xs arbitrary: i) simp_all

lemma argmax_from_Some:
  assumes "best \<noteq> None \<or> \<not> list_all isna xs"
  shows "\<exists>k v. argmax_from xs i best = Some (k, v)"
  using assms
proof (induction xs arbitrary: i best)
  case Nil
  then show ?case by auto
next
  case (Cons x xs)
  show ?case
  proof (cases "isna x")
    case True
    with Cons.prems have "best \<noteq> None \<or> \<not> list_all isna xs" by simp
    from Cons.IH [OF this, of "Suc i"] True show ?thesis by simp
  next
    case False
    let ?b = "case best of None \<Rightarrow> Some (i, x)
              | Some (j, y) \<Rightarrow> if flt y x then Some (i, x) else best"
    have "?b \<noteq> None \<or> \<not> list_all isna xs"
      by (auto split: option.splits)
    from Cons.IH [OF this, of "Suc i"] False show ?thesis by simp
  qed
qed

lemma flt_trans: "flt a b \<Longrightarrow> flt b c \<Longrightarrow> flt a c"
  by (cases a; cases b; cases c) simp_all

lemma fle_total: "\<not> isna a \<Longrightarrow> \<not> isna b \<Longrightarrow> fle a b \<or> flt b a"
  by (cases a; cases b) (auto simp: fle_def isna_def)

lemma fle_flt_trans: "fle a b \<Longrightarrow> flt b c \<Longrightarrow> flt a c"
  by (auto simp: fle_def intro: flt_trans)

lemma fle_trans: "fle a b \<Longrightarrow> fle b c \<Longrightarrow> fle a c"
  by (auto simp: fle_def intro: flt_trans)

text \<open>What the scan of \<open>argmax_from\<close> returns, given what it started from.\<close>

lemma argmax_from_spec:
  assumes "argmax_from xs i best = Some (k, v)"
    and "\<forall>j y. best = Some (j, y) \<longrightarrow> \<not> isna y"
  shows "\<not> isna v \<and>
         (\<forall>x \<in> set xs. \<not> isna x \<longrightarrow> fle x v) \<and>
         (\<forall>j y. best = Some (j, y) \<longrightarrow> fle y v) \<and>
         (best = Some (k, v) \<or>
          (i \<le> k \<and> k - i < length xs \<and> xs ! (k - i) = v \<and>
           (\<forall>m < k - i. \<not> isna (xs ! m) \<longrightarrow> flt (xs ! m) v) \<and>
           (\<forall>j y. best = Some (j, y) \<longrightarrow> flt y v)))"
  using assms
proof (induction xs arbitrary: i best)
  case Nil
  then show ?case by (auto simp: fle_def)
next
  case (Cons x xs)
  show ?case
  proof (cases "isna x")
    case True
    with Cons.prems(1) have s: "argmax_from xs (Suc i) best = Some (k, v)" by simp
    note ih = Cons.IH [OF s Cons.prems(2)]
    from ih have a: "\<not> isna v" "\<forall>x \<in> set xs. \<not> isna x \<longrightarrow> fle x v"
      "\<forall>j y. best = Some (j, y) \<longrightarrow> fle y v" by blast+
    from ih have "best = Some (k, v) \<or>
          (Suc i \<le> k \<and> k - Suc i < length xs \<and> xs ! (k - Suc i) = v \<and>
           (\<forall>m < k - Suc i. \<not> isna (xs ! m) \<longrightarrow> flt (xs ! m) v) \<and>
           (\<forall>j y. best = Some (j, y) \<longrightarrow> flt y v))" by blast
    then show ?thesis
    proof
      assume "best = Some (k, v)"
      with a True show ?thesis by simp
    next
      assume b: "Suc i \<le> k \<and> k - Suc i < length xs \<and> xs ! (k - Suc i) = v \<and>
           (\<forall>m < k - Suc i. \<not> isna (xs ! m) \<longrightarrow> flt (xs ! m) v) \<and>
           (\<forall>j y. best = Some (j, y) \<longrightarrow> flt y v)"
      then have e: "k - i = Suc (k - Suc i)" by arith
      have "\<forall>m < k - i. \<not> isna ((x # xs) ! m) \<longrightarrow> flt ((x # xs) ! m) v"
      proof (intro allI impI)
        fix m assume m: "m < k - i" "\<not> isna ((x # xs) ! m)"
        show "flt ((x # xs) ! m) v"
        proof (cases m)
          case 0
          with m True show ?thesis by simp
        next
          case (Suc m')
          with m e b show ?thesis by simp
        qed
      qed
      with a b e True show ?thesis by simp
    qed
  next
    case False
    define b' where "b' = (case best of None \<Rightarrow> Some (i, x)
              | Some (j, y) \<Rightarrow> if flt y x then Some (i, x) else best)"
    from Cons.prems(1) False have s: "argmax_from xs (Suc i) b' = Some (k, v)"
      by (simp add: b'_def)
    have nb: "\<forall>j y. b' = Some (j, y) \<longrightarrow> \<not> isna y"
      using Cons.prems(2) False by (auto simp: b'_def split: option.splits if_splits)
    note ih = Cons.IH [OF s nb]
    from ih have a: "\<not> isna v" "\<forall>x \<in> set xs. \<not> isna x \<longrightarrow> fle x v"
      "\<forall>j y. b' = Some (j, y) \<longrightarrow> fle y v" by blast+
    from ih have d: "b' = Some (k, v) \<or>
          (Suc i \<le> k \<and> k - Suc i < length xs \<and> xs ! (k - Suc i) = v \<and>
           (\<forall>m < k - Suc i. \<not> isna (xs ! m) \<longrightarrow> flt (xs ! m) v) \<and>
           (\<forall>j y. b' = Some (j, y) \<longrightarrow> flt y v))" by blast
    show ?thesis
    proof (cases "b' = Some (i, x)")
      case new: True
      then have xv: "fle x v" using a by blast
      have old: "\<forall>j y. best = Some (j, y) \<longrightarrow> flt y x \<or> (j, y) = (i, x)"
        using new by (auto simp: b'_def split: option.splits if_splits)
      have oldle: "\<forall>j y. best = Some (j, y) \<longrightarrow> fle y v"
        using old xv by (auto simp: fle_def intro: flt_trans)
      from d show ?thesis
      proof
        assume "b' = Some (k, v)"
        with new have kv: "k = i" "v = x" by simp_all
        have "best = Some (k, v) \<or> (\<forall>j y. best = Some (j, y) \<longrightarrow> flt y v)"
          using old kv by auto
        with a xv oldle kv False show ?thesis by auto
      next
        assume b: "Suc i \<le> k \<and> k - Suc i < length xs \<and> xs ! (k - Suc i) = v \<and>
           (\<forall>m < k - Suc i. \<not> isna (xs ! m) \<longrightarrow> flt (xs ! m) v) \<and>
           (\<forall>j y. b' = Some (j, y) \<longrightarrow> flt y v)"
        then have e: "k - i = Suc (k - Suc i)" by arith
        from b new have xlt: "flt x v" by blast
        have "\<forall>m < k - i. \<not> isna ((x # xs) ! m) \<longrightarrow> flt ((x # xs) ! m) v"
        proof (intro allI impI)
          fix m assume m: "m < k - i" "\<not> isna ((x # xs) ! m)"
          show "flt ((x # xs) ! m) v"
          proof (cases m)
            case 0
            with xlt show ?thesis by simp
          next
            case (Suc m')
            with m e b show ?thesis by simp
          qed
        qed
        moreover have "\<forall>j y. best = Some (j, y) \<longrightarrow> flt y v"
          using old xlt by (auto intro: flt_trans)
        ultimately show ?thesis using a xv oldle b e by simp
      qed
    next
      case keep: False
      then obtain j y where best: "best = Some (j, y)" and nlt: "\<not> flt y x" and b'best: "b' = best"
        by (auto simp: b'_def split: option.splits if_splits)
      have ny: "\<not> isna y" using Cons.prems(2) best by blast
      have yv: "fle y v" using a b'best best by blast
      have "fle x y" using fle_total [OF False ny] nlt by blast
      then have xv: "fle x v" using yv by (rule fle_trans)
      from d show ?thesis
      proof
        assume "b' = Some (k, v)"
        with a xv b'best show ?thesis by auto
      next
        assume b: "Suc i \<le> k \<and> k - Suc i < length xs \<and> xs ! (k - Suc i) = v \<and>
           (\<forall>m < k - Suc i. \<not> isna (xs ! m) \<longrightarrow> flt (xs ! m) v) \<and>
           (\<forall>j y. b' = Some (j, y) \<longrightarrow> flt y v)"
        then have e: "k - i = Suc (k - Suc i)" by arith
        from b b'best best have ylt: "flt y v" by blast
        have xlt: "flt x v" using \<open>fle x y\<close> ylt by (rule fle_flt_trans)
        have "\<forall>m < k - i. \<not> isna ((x # xs) ! m) \<longrightarrow> flt ((x # xs) ! m) v"
        proof (intro allI impI)
          fix m assume m: "m < k - i" "\<not> isna ((x # xs) ! m)"
          show "flt ((x # xs) ! m) v"
          proof (cases m)
            case 0
            with xlt show ?thesis by simp
          next
            case (Suc m')
            with m e b show ?thesis by simp
          qed
        qed
        with a xv b e b'best show ?thesis by simp
      qed
    qed
  qed
qed


lemma fle_antisym: "fle a b \<Longrightarrow> fle b a \<Longrightarrow> a = b"
  by (cases a; cases b) (auto simp: fle_def)

lemma fill_na_not_na: "\<not> isna (fill_na x)"
  by (simp add: fill_na_def isna_def)

lemma fill_na_id: "\<not> isna x \<Longrightarrow> fill_na x = x"
  by (simp add: fill_na_def)

text \<open>\<open>idxmax\<close> is the first position of the largest value of the filled column.\<close>

lemma idxmax_spec:
  assumes "\<not> list_all isna xs"
  shows "\<exists>i. idxmax xs = Inr i \<and> i < length xs \<and>
           (\<forall>j < length xs. fle (fill_na (xs ! j)) (fill_na (xs ! i))) \<and>
           (\<forall>j < i. flt (fill_na (xs ! j)) (fill_na (xs ! i)))"
proof -
  let ?ys = "map fill_na xs"
  from assms have "xs \<noteq> []" by auto
  then have "\<not> list_all isna ?ys"
    by (cases xs) (simp_all add: fill_na_not_na)
  then obtain k v where kv: "argmax_from ?ys 0 None = Some (k, v)"
    using argmax_from_Some [of None ?ys 0] by blast
  have pre: "\<forall>j y. (None :: (nat \<times> pyfloat) option) = Some (j, y) \<longrightarrow> \<not> isna y"
    by simp
  have spec: "\<not> isna v \<and>
         (\<forall>x \<in> set ?ys. \<not> isna x \<longrightarrow> fle x v) \<and>
         (0 \<le> k \<and> k - 0 < length ?ys \<and> ?ys ! (k - 0) = v \<and>
           (\<forall>m < k - 0. \<not> isna (?ys ! m) \<longrightarrow> flt (?ys ! m) v))"
    using argmax_from_spec [OF kv pre] by blast
  then have mx: "\<forall>x \<in> set ?ys. \<not> isna x \<longrightarrow> fle x v"
    by blast
  from spec have k: "k < length ?ys" "?ys ! k = v"
    by (simp_all del: length_map nth_map)
  from spec have first: "\<forall>m < k. \<not> isna (?ys ! m) \<longrightarrow> flt (?ys ! m) v"
    by (simp del: length_map nth_map)
  have a: "\<forall>j < length xs. fle (fill_na (xs ! j)) (fill_na (xs ! k))"
  proof (intro allI impI)
    fix j assume j: "j < length xs"
    then have "?ys ! j \<in> set ?ys" by (metis length_map nth_mem)
    with mx have "fle (?ys ! j) v"
      using j by (simp add: fill_na_not_na)
    with j k show "fle (fill_na (xs ! j)) (fill_na (xs ! k))" by simp
  qed
  have b: "\<forall>j < k. flt (fill_na (xs ! j)) (fill_na (xs ! k))"
  proof (intro allI impI)
    fix j assume j: "j < k"
    with first k have "flt (?ys ! j) v"
      by (simp add: fill_na_not_na)
    with j k show "flt (fill_na (xs ! j)) (fill_na (xs ! k))" by simp
  qed
  from kv k a b assms show ?thesis
    by (simp add: idxmax_def)
qed

text \<open>\<open>max\<close> is a value of the column that is not missing and below no other such value.\<close>

lemma series_max_spec:
  assumes "\<not> list_all isna xs"
  shows "\<not> isna (series_max xs) \<and> (\<forall>j < length xs. \<not> isna (xs ! j) \<longrightarrow> fle (xs ! j) (series_max xs))"
proof -
  from assms obtain k v where kv: "argmax_from xs 0 None = Some (k, v)"
    using argmax_from_Some [of None xs 0] by blast
  have pre: "\<forall>j y. (None :: (nat \<times> pyfloat) option) = Some (j, y) \<longrightarrow> \<not> isna y"
    by simp
  from argmax_from_spec [OF kv pre]
  have v: "\<not> isna v" and mx: "\<forall>x \<in> set xs. \<not> isna x \<longrightarrow> fle x v"
    by simp_all
  have "series_max xs = v" by (simp add: series_max_def kv)
  with v mx show ?thesis by simp
qed

lemma series_max_all_na:
  assumes "list_all isna xs"
  shows "series_max xs = NaN"
  by (simp add: series_max_def argmax_from_all_na [OF assms])

lemma fees_nth: "i < length df \<Longrightarrow> fees df ! i = transfer_fee (df ! i)"
  by (simp add: fees_def)

lemma summary_all_na:
  assumes "df \<noteq> []" and "list_all isna (fees df)"
  shows "generate_transfer_summary df =
    Inr (Report
          \<lparr> total_transfers = length df,
            total_spending = series_sum (fees df),
            average_fee = series_mean (fees df),
            median_fee = series_median (fees df),
            most_expensive_transfer = \<lparr> player = [], fee = NaN, from_club = [], to_club = [] \<rparr>,
            transfers_by_position = value_counts (map player_position df),
            transfers_by_month = month_sums df,
            top_spending_clubs = club_sums to_club_name df,
            top_selling_clubs = club_sums from_club_name df \<rparr>)"
  using assms
  by (simp add: generate_transfer_summary_def loc_idxmax_def and_then_def series_max_all_na)

lemma summary_some_fee:
  assumes "df \<noteq> []" and "idxmax (fees df) = Inr i" and "\<not> list_all isna (fees df)"
  shows "generate_transfer_summary df =
    Inr (Report
          \<lparr> total_transfers = length df,
            total_spending = series_sum (fees df),
            average_fee = series_mean (fees df),
            median_fee = series_median (fees df),
            most_expensive_transfer =
              \<lparr> player = player_name (df ! i), fee = series_max (fees df),
                from_club = from_club_name (df ! i), to_club = to_club_name (df ! i) \<rparr>,
            transfers_by_position = value_counts (map player_position df),
            transfers_by_month = month_sums df,
            top_spending_clubs = club_sums to_club_name df,
            top_selling_clubs = club_sums from_club_name df \<rparr>)"
  using assms
  by (simp add: generate_transfer_summary_def loc_idxmax_def and_then_def)

text \<open>
  C4 (amended). For every non-empty table in which every \<open>transfer_fee\<close> is missing,
  the summarizer raises nothing and the \<open>most_expensive_transfer\<close> entry holds \<open>""\<close>
  for the player and both club names and NaN, the missing value, for the fee.
\<close>

theorem most_expensive_all_fees_missing:
  assumes "df \<noteq> []" and "\<forall>r \<in> set df. isna (transfer_fee r)"
  shows "\<exists>s. generate_transfer_summary df = Inr (Report s) \<and>
           most_expensive_transfer s =
             \<lparr> player = [], fee = NaN, from_club = [], to_club = [] \<rparr>"
proof -
  from assms(2) have "list_all isna (fees df)"
    by (simp add: fees_def list_all_iff)
  from summary_all_na [OF assms(1) this] show ?thesis
    by simp
qed

theorem most_expensive_all_fees_missing_witness:
  "[blank_row, blank_row] \<noteq> [] \<and> isna (transfer_fee blank_row) \<and>
   (\<exists>s. generate_transfer_summary [blank_row, blank_row] = Inr (Report s) \<and>
        most_expensive_transfer s = \<lparr> player = [], fee = NaN, from_club = [], to_club = [] \<rparr>)"
proof -
  have a: "[blank_row, blank_row] \<noteq> []" by simp
  have b: "\<forall>r \<in> set [blank_row, blank_row]. isna (transfer_fee r)"
    by (simp add: blank_row_def isna_def)
  have c: "isna (transfer_fee blank_row)"
    by (simp add: blank_row_def isna_def)
  from most_expensive_all_fees_missing [OF a b] a c show ?thesis
    by blast
qed

text \<open>
  The summary of a table of one row whose fee is missing: the fee of
  \<open>most_expensive_transfer\<close> is the \<open>max\<close> of the column, which is NaN and not 0.
\<close>

theorem most_expensive_fee_not_zero_counterexample:
  "generate_transfer_summary [blank_row] =
     Inr (Report
       \<lparr> total_transfers = 1, total_spending = Fin 0, average_fee = NaN, median_fee = NaN,
         most_expensive_transfer = \<lparr> player = [], fee = NaN, from_club = [], to_club = [] \<rparr>,
         transfers_by_position = [([], 1)], transfers_by_month = [],
         top_spending_clubs = [([], Fin 0)], top_selling_clubs = [([], Fin 0)] \<rparr>) \<and>
   NaN \<noteq> Fin 0"
  by (simp add: generate_transfer_summary_def loc_idxmax_def and_then_def fees_def blank_row_def
      isna_def series_max_def series_sum_def series_mean_def series_median_def dropna_def
      sort_asc_def value_counts_def month_sums_def club_sums_def groupby_sum_def
      group_values_def nlargest_def List.map_filter_simps)

lemma summary_fields:
  assumes "df \<noteq> []"
  shows "\<exists>s. generate_transfer_summary df = Inr (Report s) \<and>
           total_transfers s = length df \<and>
           total_spending s = series_sum (fees df) \<and>
           average_fee s = series_mean (fees df) \<and>
           transfers_by_month s = month_sums df \<and>
           top_spending_clubs s = club_sums to_club_name df"
proof (cases "list_all isna (fees df)")
  case True
  from summary_all_na [OF assms True] show ?thesis by simp
next
  case False
  from idxmax_spec [OF False] obtain i where "idxmax (fees df) = Inr i" by blast
  from summary_some_fee [OF assms this False] show ?thesis by simp
qed

text \<open>
  A table in which \<open>idxmax\<close> lands on a row without a fee: the first fee is missing and
  the only other fee is minus infinity. The reported player is the one of the first row,
  whose fee is missing, and the reported fee is minus infinity.
\<close>

theorem most_expensive_missing_row_counterexample:
  "generate_transfer_summary
     [blank_row\<lparr>player_name := str ''a''\<rparr>,
      blank_row\<lparr>transfer_fee := NegInf, player_name := str ''b''\<rparr>] =
     Inr (Report
       \<lparr> total_transfers = 2, total_spending = NegInf, average_fee = NegInf,
         median_fee = NegInf,
         most_expensive_transfer =
           \<lparr> player = str ''a'', fee = NegInf, from_club = [], to_club = [] \<rparr>,
         transfers_by_position = [([], 2)], transfers_by_month = [],
         top_spending_clubs = [([], NegInf)], top_selling_clubs = [([], NegInf)] \<rparr>) \<and>
   isna (transfer_fee (blank_row\<lparr>player_name := str ''a''\<rparr>))"
  by (simp add: generate_transfer_summary_def loc_idxmax_def and_then_def fees_def blank_row_def
      isna_def series_max_def series_sum_def series_mean_def series_median_def dropna_def
      sort_asc_def value_counts_def month_sums_def club_sums_def groupby_sum_def
      group_values_def nlargest_def List.map_filter_simps idxmax_def fill_na_def str_def)

text \<open>
  C6 (amended). For every non-empty table in which some fee is neither missing nor minus
  infinity, or whose first row has a fee, the summarizer returns a report whose
  \<open>most_expensive_transfer\<close> entry is read from one row \<open>i\<close>: the fee of row \<open>i\<close> is not
  missing, no fee of the table is larger, every fee before row \<open>i\<close> is strictly smaller
  (so \<open>i\<close> is the first row with the maximal fee), and the entry holds the player name,
  the fee and both club names of row \<open>i\<close>.
\<close>

theorem most_expensive_is_first_maximum:
  assumes "df \<noteq> []"
    and "(\<exists>r \<in> set df. \<not> isna (transfer_fee r) \<and> transfer_fee r \<noteq> NegInf) \<or>
         \<not> isna (transfer_fee (hd df))"
  shows "\<exists>s i. generate_transfer_summary df = Inr (Report s) \<and> i < length df \<and>
           \<not> isna (transfer_fee (df ! i)) \<and>
           (\<forall>j < length df. \<not> isna (transfer_fee (df ! j)) \<longrightarrow>
                fle (transfer_fee (df ! j)) (transfer_fee (df ! i))) \<and>
           (\<forall>j < i. \<not> isna (transfer_fee (df ! j)) \<longrightarrow>
                flt (transfer_fee (df ! j)) (transfer_fee (df ! i))) \<and>
           most_expensive_transfer s =
             \<lparr> player = player_name (df ! i), fee = transfer_fee (df ! i),
               from_club = from_club_name (df ! i), to_club = to_club_name (df ! i) \<rparr>"
proof -
  let ?xs = "fees df"
  have len: "length ?xs = length df" by (simp add: fees_def)
  have hd0: "transfer_fee (hd df) = ?xs ! 0"
    using assms(1) by (cases df) (simp_all add: fees_def)
  from assms(1,2) have some: "\<not> list_all isna ?xs"
    by (cases df) (auto simp: fees_def list_all_iff)
  from idxmax_spec [OF some] obtain i where i: "idxmax ?xs = Inr i" "i < length ?xs"
    and mx: "\<forall>j < length ?xs. fle (fill_na (?xs ! j)) (fill_na (?xs ! i))"
    and first: "\<forall>j < i. flt (fill_na (?xs ! j)) (fill_na (?xs ! i))"
    by blast
  have val: "\<not> isna (?xs ! i)"
  proof
    assume na: "isna (?xs ! i)"
    then have f: "fill_na (?xs ! i) = NegInf" by (simp add: fill_na_def)
    from assms(2) show False
    proof
      assume "\<exists>r \<in> set df. \<not> isna (transfer_fee r) \<and> transfer_fee r \<noteq> NegInf"
      then obtain j where j: "j < length df" "\<not> isna (?xs ! j)" "?xs ! j \<noteq> NegInf"
        by (auto simp: in_set_conv_nth fees_def)
      with mx len have "fle (?xs ! j) NegInf"
        by (metis f fill_na_id)
      with j(2,3) show False
        by (cases "?xs ! j") (simp_all add: fle_def isna_def)
    next
      assume h: "\<not> isna (transfer_fee (hd df))"
      have "i \<noteq> 0"
      proof
        assume "i = 0"
        with na h hd0 show False by simp
      qed
      then have "flt (fill_na (?xs ! 0)) NegInf"
        using first f by auto
      then show False
        by (cases "fill_na (?xs ! 0)") simp_all
    qed
  qed
  have il: "i < length df" using i(2) len by simp
  have a: "\<not> isna (transfer_fee (df ! i))"
    using val il by (simp add: fees_nth)
  have b: "\<forall>j < length df. \<not> isna (transfer_fee (df ! j)) \<longrightarrow>
      fle (transfer_fee (df ! j)) (transfer_fee (df ! i))"
  proof (intro allI impI)
    fix j assume j: "j < length df" "\<not> isna (transfer_fee (df ! j))"
    then have "fle (fill_na (?xs ! j)) (fill_na (?xs ! i))"
      using mx len by simp
    with j val il show "fle (transfer_fee (df ! j)) (transfer_fee (df ! i))"
      by (simp add: fees_nth fill_na_id)
  qed
  have c: "\<forall>j < i. \<not> isna (transfer_fee (df ! j)) \<longrightarrow>
      flt (transfer_fee (df ! j)) (transfer_fee (df ! i))"
  proof (intro allI impI)
    fix j assume j: "j < i" "\<not> isna (transfer_fee (df ! j))"
    then have "flt (fill_na (?xs ! j)) (fill_na (?xs ! i))"
      using first by simp
    with j val il show "flt (transfer_fee (df ! j)) (transfer_fee (df ! i))"
      by (simp add: fees_nth fill_na_id)
  qed
  have d: "series_max ?xs = transfer_fee (df ! i)"
  proof (rule fle_antisym)
    from series_max_spec [OF some] have m: "\<not> isna (series_max ?xs)"
      "\<forall>j < length ?xs. \<not> isna (?xs ! j) \<longrightarrow> fle (?xs ! j) (series_max ?xs)"
      by simp_all
    from m(2) i(2) val have "fle (?xs ! i) (series_max ?xs)" by simp
    then show "fle (transfer_fee (df ! i)) (series_max ?xs)"
      using il by (simp add: fees_nth)
    have "series_max ?xs \<in> set ?xs"
    proof -
      from some obtain k v where kv: "argmax_from ?xs 0 None = Some (k, v)"
        using argmax_from_Some [of None ?xs 0] by blast
      have pre: "\<forall>j y. (None :: (nat \<times> pyfloat) option) = Some (j, y) \<longrightarrow> \<not> isna y"
        by simp
      from argmax_from_spec [OF kv pre] have "k < length ?xs" "?xs ! k = v"
        by simp_all
      then show ?thesis
        by (metis kv nth_mem series_max_def option.simps(5) case_prod_conv)
    qed
    then obtain j where j: "j < length ?xs" "?xs ! j = series_max ?xs"
      by (auto simp: in_set_conv_nth)
    with m(1) b len show "fle (series_max ?xs) (transfer_fee (df ! i))"
      by (metis fees_nth)
  qed
  have e: "generate_transfer_summary df =
    Inr (Report
          \<lparr> total_transfers = length df,
            total_spending = series_sum (fees df),
            average_fee = series_mean (fees df),
            median_fee = series_median (fees df),
            most_expensive_transfer =
              \<lparr> player = player_name (df ! i), fee = transfer_fee (df ! i),
                from_club = from_club_name (df ! i), to_club = to_club_name (df ! i) \<rparr>,
            transfers_by_position = value_counts (map player_position df),
            transfers_by_month = month_sums df,
            top_spending_clubs = club_sums to_club_name df,
            top_selling_clubs = club_sums from_club_name df \<rparr>)"
    using summary_some_fee [OF assms(1) i(1) some] d by simp
  show ?thesis
    apply (subst e)
    apply (intro exI conjI)
         apply (rule refl)
        apply (rule il)
       apply (rule a)
      apply (rule b)
     apply (rule c)
    apply simp
    done
qed

theorem most_expensive_is_first_maximum_witness:
  "[blank_row\<lparr>transfer_fee := Fin 20, player_name := str ''a''\<rparr>,
    blank_row\<lparr>transfer_fee := Fin 20, player_name := str ''b''\<rparr>] \<noteq> [] \<and>
   \<not> isna (transfer_fee (blank_row\<lparr>transfer_fee := Fin 20, player_name := str ''a''\<rparr>)) \<and>
   transfer_fee (blank_row\<lparr>transfer_fee := Fin 20, player_name := str ''a''\<rparr>) \<noteq> NegInf \<and>
   (\<exists>s. generate_transfer_summary
          [blank_row\<lparr>transfer_fee := Fin 20, player_name := str ''a''\<rparr>,
           blank_row\<lparr>transfer_fee := Fin 20, player_name := str ''b''\<rparr>] = Inr (Report s) \<and>
        player (most_expensive_transfer s) = str ''a'' \<and>
        fee (most_expensive_transfer s) = Fin 20)"
proof -
  let ?df = "[blank_row\<lparr>transfer_fee := Fin 20, player_name := str ''a''\<rparr>,
              blank_row\<lparr>transfer_fee := Fin 20, player_name := str ''b''\<rparr>]"
  have a: "?df \<noteq> []" by simp
  have b: "(\<exists>r \<in> set ?df. \<not> isna (transfer_fee r) \<and> transfer_fee r \<noteq> NegInf) \<or>
         \<not> isna (transfer_fee (hd ?df))"
    by (simp add: isna_def)
  from most_expensive_is_first_maximum [OF a b] obtain s i where
    s: "generate_transfer_summary ?df = Inr (Report s)" and i: "i < length ?df"
    and first: "\<forall>j < i. \<not> isna (transfer_fee (?df ! j)) \<longrightarrow>
                flt (transfer_fee (?df ! j)) (transfer_fee (?df ! i))"
    and m: "most_expensive_transfer s =
             \<lparr> player = player_name (?df ! i), fee = transfer_fee (?df ! i),
               from_club = from_club_name (?df ! i), to_club = to_club_name (?df ! i) \<rparr>"
    by blast
  have "i = 0"
  proof (rule ccontr)
    assume "i \<noteq> 0"
    with i have "i = 1" by simp
    have "0 < i \<longrightarrow> \<not> isna (transfer_fee (?df ! 0)) \<longrightarrow>
        flt (transfer_fee (?df ! 0)) (transfer_fee (?df ! i))"
      using first by blast
    with \<open>i = 1\<close> show False
      by (simp add: isna_def)
  qed
  with m have "player (most_expensive_transfer s) = str ''a''"
    "fee (most_expensive_transfer s) = Fin 20"
    by simp_all
  moreover have "\<not> isna (transfer_fee (blank_row\<lparr>transfer_fee := Fin 20, player_name := str ''a''\<rparr>))"
    "transfer_fee (blank_row\<lparr>transfer_fee := Fin 20, player_name := str ''a''\<rparr>) \<noteq> NegInf"
    by (simp_all add: isna_def)
  ultimately show ?thesis using s a by blast
qed

text \<open>
  C8. The summary of the empty table is the empty report; nothing is raised. The test
  for the empty table comes first in \<open>generate_transfer_summary\<close>.
\<close>

theorem generate_transfer_summary_empty:
  "generate_transfer_summary [] = Inr Empty_report"
  by (simp add: generate_transfer_summary_def)














lemmas summary_defs =
  fees_def isna_def series_max_def series_sum_def series_mean_def series_median_def dropna_def
  sort_asc_def value_counts_def month_sums_def club_sums_def groupby_sum_def
  group_values_def nlargest_def List.map_filter_simps idxmax_def str_def

text \<open>
  C5. Three rows with the fees 10.0, 20.0 and missing and the buying clubs \<open>"A"\<close>,
  \<open>"B"\<close> and \<open>"A"\<close>, whatever their other fields: \<open>total_spending\<close> is 30.0,
  \<open>average_fee\<close> is 15.0, the missing fee left out of both, and \<open>top_spending_clubs\<close>
  is the mapping of \<open>"A"\<close> to 10.0 and \<open>"B"\<close> to 20.0, listed by descending sum.
\<close>

theorem summary_three_records:
  "\<exists>s. generate_transfer_summary
          [r1\<lparr>transfer_fee := Fin 10, to_club_name := str ''A''\<rparr>,
           r2\<lparr>transfer_fee := Fin 20, to_club_name := str ''B''\<rparr>,
           r3\<lparr>transfer_fee := NaN, to_club_name := str ''A''\<rparr>] = Inr (Report s) \<and>
        total_spending s = Fin 30 \<and> average_fee s = Fin 15 \<and>
        top_spending_clubs s = [(str ''B'', Fin 20), (str ''A'', Fin 10)] \<and>
        map_of (top_spending_clubs s) = [str ''A'' \<mapsto> Fin 10, str ''B'' \<mapsto> Fin 20]"
proof -
  let ?df = "[r1\<lparr>transfer_fee := Fin 10, to_club_name := str ''A''\<rparr>,
           r2\<lparr>transfer_fee := Fin 20, to_club_name := str ''B''\<rparr>,
           r3\<lparr>transfer_fee := NaN, to_club_name := str ''A''\<rparr>]"
  have ne: "?df \<noteq> []" by simp
  from summary_fields [OF ne] obtain s where s: "generate_transfer_summary ?df = Inr (Report s)"
    "total_spending s = series_sum (fees ?df)" "average_fee s = series_mean (fees ?df)"
    "top_spending_clubs s = club_sums to_club_name ?df"
    by blast
  have f: "fees ?df = [Fin 10, Fin 20, NaN]"
    by (simp add: fees_def)
  have a: "series_sum (fees ?df) = Fin 30"
    unfolding f by (simp add: series_sum_def dropna_def isna_def round_simps)
  have b: "series_mean (fees ?df) = Fin 15"
    unfolding f by (simp add: series_mean_def series_sum_def dropna_def isna_def round_simps)
  have c: "club_sums to_club_name ?df = [(str ''B'', Fin 20), (str ''A'', Fin 10)]"
    unfolding club_sums_def f by (simp add: summary_defs round_simps)
  have d: "map_of [(str ''B'', Fin 20), (str ''A'', Fin 10)] = [str ''A'' \<mapsto> Fin 10, str ''B'' \<mapsto> Fin 20]"
    by (auto simp: str_def fun_eq_iff)
  from s a b c d show ?thesis
    by simp
qed

end
